theory Spec2Isabelle
  imports Complex_Main
begin

section \<open>Python values shared by the notebooks\<close>

text \<open>
  The exceptions that the modelled cells can raise.  \<open>TuneError\<close> carries the message and
  the names of the trials, as \<open>ray.tune.run\<close> builds it; \<open>ExternalError\<close> stands for any
  other exception of a library outside the notebooks.
\<close>

datatype py_error =
    KeyError
  | IndexError
  | ValueError
  | NameError
  | TypeError
  | TuneError string "string list"
  | ExternalError string

text \<open>
  Indexing a Python list with an integer: a negative index counts from the end, an index
  out of range raises \<open>IndexError\<close>.
\<close>

definition list_getitem :: "'a list \<Rightarrow> int \<Rightarrow> py_error + 'a" where
  "list_getitem xs i =
     (if 0 \<le> i \<and> i < int (length xs) then Inr (xs ! nat i)
      else if - int (length xs) \<le> i \<and> i < 0 then Inr (xs ! nat (int (length xs) + i))
      else Inl IndexError)"

text \<open>Looking a key up in a dict raises \<open>KeyError\<close> when the key is absent.\<close>

definition dict_getitem :: "('k \<rightharpoonup> 'v) \<Rightarrow> 'k \<Rightarrow> py_error + 'v" where
  "dict_getitem d k = (case d k of Some v \<Rightarrow> Inr v | None \<Rightarrow> Inl KeyError)"

section \<open>The contextual bandit of the multi-armed-bandit lesson\<close>

text \<open>
  \<open>class SimpleContextualBandit (gym.Env)\<close>.  The two gym spaces are kept as the data
  their constructors receive.  A context is a Python float; the only floats that occur are
  \<open>-1.0\<close> and \<open>1.0\<close>, on which negation and the comparison of dict keys are exact, so
  they are modelled as reals.  \<open>current_context\<close> is \<open>None\<close> until the first \<open>reset\<close>.
\<close>

datatype dtype = float64

datatype space =
    Discrete nat
  | Box real real "nat list" dtype

record SimpleContextualBandit =
  action_space :: space
  observation_space :: space
  current_context :: "real option"
  rewards_for_context :: "real \<rightharpoonup> int list"

definition init :: "'c \<Rightarrow> SimpleContextualBandit" where
  "init config =
     \<lparr> action_space = Discrete 3,
       observation_space = Box (-1) 1 [2] float64,
       current_context = None,
       rewards_for_context =
         [-1 \<mapsto> [-10, 0, 10],
          1 \<mapsto> [10, 0, -10]] \<rparr>"

text \<open>
  \<open>random.choice(seq)\<close> returns \<open>seq[i]\<close> for an index \<open>i\<close> that the generator draws
  below \<open>len(seq)\<close>.  The generator is outside the program: its raw draw \<open>r\<close> is an
  argument, reduced below the length.
\<close>

definition random_choice :: "'a list \<Rightarrow> nat \<Rightarrow> 'a" where
  "random_choice xs r = xs ! (r mod length xs)"

text \<open>
  \<open>reset\<close> stores the drawn context and returns the observation \<open>np.array([-c, c])\<close>.
\<close>

definition reset :: "SimpleContextualBandit \<Rightarrow> nat \<Rightarrow> SimpleContextualBandit \<times> real list" where
  "reset self r =
     (let c = random_choice [-1, 1] r;
          self' = self\<lparr>current_context := Some c\<rparr>
      in (self', [- c, c]))"

type_synonym step_result = "real list \<times> int \<times> bool \<times> (string \<rightharpoonup> int)"

text \<open>
  \<open>step\<close> assigns to no attribute: the environment it returns is the one it received,
  also when a lookup raises.  The reward is read first.  The keys of the dict are floats, so
  with no context set (\<open>None\<close>) the lookup \<open>self.rewards_for_context[None]\<close> raises
  \<open>KeyError\<close>, before the observation is built.
\<close>

definition step :: "SimpleContextualBandit \<Rightarrow> int \<Rightarrow> SimpleContextualBandit \<times> (py_error + step_result)" where
  "step self action =
     (self,
      case current_context self of
        None \<Rightarrow> Inl KeyError
      | Some c \<Rightarrow>
          (case dict_getitem (rewards_for_context self) c of
             Inl e \<Rightarrow> Inl e
           | Inr row \<Rightarrow>
               (case list_getitem row action of
                  Inl e \<Rightarrow> Inl e
                | Inr reward \<Rightarrow>
                    Inr ([- c, c], reward, True, [''regret'' \<mapsto> 10 - reward]))))"

text \<open>
  A caller's sequence of method calls on one environment.  A call that raises leaves the
  environment as it was, and the notebook goes on with the next call.
\<close>

datatype call = Reset nat | Step int

fun call_env :: "call \<Rightarrow> SimpleContextualBandit \<Rightarrow> SimpleContextualBandit" where
  "call_env (Reset r) self = fst (reset self r)"
| "call_env (Step a) self = fst (step self a)"

definition run_calls :: "SimpleContextualBandit \<Rightarrow> call list \<Rightarrow> SimpleContextualBandit" where
  "run_calls self cs = fold call_env cs self"

text \<open>The reward and the regret that a caller unpacks from the tuple \<open>step\<close> returns.\<close>

definition step_reward :: "SimpleContextualBandit \<Rightarrow> int \<Rightarrow> int option" where
  "step_reward self action =
     (case snd (step self action) of
        Inl e \<Rightarrow> None
      | Inr (observation, reward, done, info) \<Rightarrow> Some reward)"

definition step_regret :: "SimpleContextualBandit \<Rightarrow> int \<Rightarrow> int option" where
  "step_regret self action =
     (case snd (step self action) of
        Inl e \<Rightarrow> None
      | Inr (observation, reward, done, info) \<Rightarrow> info ''regret'')"

section \<open>The image-shifting helper of the multiprocessing lesson\<close>

text \<open>
  Arrays are lists in row-major order: a 2-D array is the list of its rows.  The pixels are
  floats; the only arithmetic on them is a product with a kernel weight \<open>0\<close> or \<open>1\<close>
  and a sum in which at most one term is not zero, both exact on finite floats, so pixels
  are modelled as reals.
\<close>

type_synonym image = "real list list"

text \<open>
  Reading a pixel under \<open>mode='constant'\<close> (and the default \<open>cval=0.0\<close>): outside the
  image the value is \<open>0\<close>.
\<close>

definition pixel :: "image \<Rightarrow> int \<Rightarrow> int \<Rightarrow> real" where
  "pixel img i j =
     (if 0 \<le> i \<and> i < int (length img) \<and> 0 \<le> j \<and> j < int (length (img ! nat i))
      then img ! nat i ! nat j else 0)"

text \<open>
  \<open>scipy.ndimage.convolve(input, weights, mode='constant')\<close>: the output has the shape
  of the input and, with \<open>k\<close> the centre of the kernel,
  \<open>C[i] = sum over j of I[i + k - j] * W[j]\<close>.  The centre of a kernel of odd size is its
  middle entry; the notebook only uses 3x3 kernels.
\<close>

definition convolve :: "image \<Rightarrow> real list list \<Rightarrow> image" where
  "convolve input weights =
     map (\<lambda>i.
       map (\<lambda>j.
         (\<Sum>a \<leftarrow> [0..<length weights].
            (\<Sum>b \<leftarrow> [0..<length (weights ! a)].
               weights ! a ! b *
               pixel input (int i + int (length weights div 2) - int a)
                           (int j + int (length (weights ! a) div 2) - int b))))
         [0..<length (input ! i)])
       [0..<length input]"

text \<open>
  \<open>x.reshape((8, 8))\<close> raises \<open>ValueError\<close> unless \<open>x\<close> has 64 elements;
  \<open>ravel\<close> lays the rows out one after the other.
\<close>

definition reshape_8_8 :: "'a list \<Rightarrow> py_error + 'a list list" where
  "reshape_8_8 x =
     (if length x = 64 then Inr (map (\<lambda>i. take 8 (drop (8 * i) x)) [0..<8])
      else Inl ValueError)"

definition ravel :: "'a list list \<Rightarrow> 'a list" where
  "ravel a = concat a"

definition shift :: "real list \<Rightarrow> real list list \<Rightarrow> py_error + real list" where
  "shift x w =
     (case reshape_8_8 x of
        Inl e \<Rightarrow> Inl e
      | Inr img \<Rightarrow> Inr (ravel (convolve img w)))"

text \<open>The results of a list of calls, or the first exception raised.\<close>

fun collect :: "(py_error + 'a) list \<Rightarrow> py_error + 'a list" where
  "collect [] = Inr []"
| "collect (Inl e # rs) = Inl e"
| "collect (Inr v # rs) = (case collect rs of Inl e \<Rightarrow> Inl e | Inr vs \<Rightarrow> Inr (v # vs))"

text \<open>
  \<open>np.apply_along_axis(func1d, 1, arr, *args)\<close> on a 2-D array applies \<open>func1d\<close> to each
  row and stacks the results.  It calls \<open>func1d\<close> on the first row before allocating the
  output, and raises \<open>ValueError\<close> (cannot apply along an axis when an iteration
  dimension is 0) on an array with no row.
\<close>

definition apply_along_axis ::
    "('a list \<Rightarrow> py_error + 'b list) \<Rightarrow> 'a list list \<Rightarrow> py_error + 'b list list" where
  "apply_along_axis func1d arr =
     (if arr = [] then Inl ValueError else collect (map func1d arr))"

text \<open>\<open>np.concatenate\<close> along axis 0 puts the arrays one after the other, in a new array.\<close>

definition np_concatenate :: "'a list list \<Rightarrow> 'a list" where
  "np_concatenate arrays = concat arrays"

definition direction_vectors :: "real list list list" where
  "direction_vectors =
     [[[0, 1, 0],
       [0, 0, 0],
       [0, 0, 0]],

      [[0, 0, 0],
       [1, 0, 0],
       [0, 0, 0]],

      [[0, 0, 0],
       [0, 0, 1],
       [0, 0, 0]],

      [[0, 0, 0],
       [0, 0, 0],
       [0, 1, 0]]]"

text \<open>
  \<open>nudge_dataset(X, Y)\<close> on the values of its arguments.  The images are shifted
  first, so an exception there is raised before the labels are copied.
\<close>

definition nudge_dataset ::
    "real list list \<Rightarrow> 'l list \<Rightarrow> py_error + (real list list \<times> 'l list)" where
  "nudge_dataset X Y =
     (case collect (map (\<lambda>vector. apply_along_axis (\<lambda>x. shift x vector) X)
                        direction_vectors) of
        Inl e \<Rightarrow> Inl e
      | Inr shifted \<Rightarrow>
          Inr (np_concatenate ([X] @ shifted),
               np_concatenate (map (\<lambda>_. Y) [0..<5])))"

text \<open>
  The call \<open>nudge_dataset(X, Y)\<close> on array objects.  The store holds the 2-D float
  arrays and the 1-D label arrays by address; the addresses below \<open>next_image\<close> and
  \<open>next_labels\<close> are the allocated ones.  The body contains no in-place operation: its two
  assignments bind the local names \<open>X\<close> and \<open>Y\<close> to the arrays that
  \<open>np.concatenate\<close> allocates, and the pair of their addresses is returned.  When the
  call raises, nothing has been allocated that the caller can reach.
\<close>

record store =
  images :: "nat \<Rightarrow> real list list"
  next_image :: nat
  labels :: "nat \<Rightarrow> int list"
  next_labels :: nat

definition nudge_dataset_call :: "store \<Rightarrow> nat \<Rightarrow> nat \<Rightarrow> store \<times> (py_error + nat \<times> nat)" where
  "nudge_dataset_call s X Y =
     (case nudge_dataset (images s X) (labels s Y) of
        Inl e \<Rightarrow> (s, Inl e)
      | Inr (X', Y') \<Rightarrow>
          (s\<lparr> images := (images s)(next_image s := X'),
              next_image := Suc (next_image s),
              labels := (labels s)(next_labels s := Y'),
              next_labels := Suc (next_labels s) \<rparr>,
           Inr (next_image s, next_labels s)))"

text \<open>
  What the docstring of \<open>nudge_dataset\<close> calls moving an 8x8 image by 1px: every pixel
  goes to the neighbouring position in the direction named, the row or column that leaves the
  image is dropped, and the one that enters is zero.  Row 0 is the top row and column 0 the
  left column.
\<close>

definition moved_left :: "image \<Rightarrow> image" where
  "moved_left img = map (\<lambda>row. tl row @ [0]) img"

definition moved_right :: "image \<Rightarrow> image" where
  "moved_right img = map (\<lambda>row. 0 # butlast row) img"

definition moved_up :: "image \<Rightarrow> image" where
  "moved_up img = tl img @ [replicate 8 0]"

definition moved_down :: "image \<Rightarrow> image" where
  "moved_down img = replicate 8 0 # butlast img"

section \<open>The process pool of the multiprocessing lesson\<close>

text \<open>\<open>str\<close> of a Python integer: its decimal digits, after a minus sign when negative.\<close>

definition digit_char :: "nat \<Rightarrow> char" where
  "digit_char d = char_of (48 + d)"

function str_nat :: "nat \<Rightarrow> string" where
  "str_nat n = (if n < 10 then [digit_char n] else str_nat (n div 10) @ [digit_char (n mod 10)])"
  by pat_completeness auto
termination
  by (relation "measure id") auto

definition str :: "int \<Rightarrow> string" where
  "str i = (if i < 0 then CHR ''-'' # str_nat (nat (- i)) else str_nat (nat i))"

text \<open>\<open>range(n)\<close> is empty when \<open>n\<close> is not positive.\<close>

definition py_range :: "int \<Rightarrow> int list" where
  "py_range n = [0..n - 1]"

definition f :: "int \<Rightarrow> int" where
  "f index = index"

text \<open>
  \<open>run_with_pool(n)\<close>.  \<open>Pool\<close> belongs to \<open>ray.util.multiprocessing\<close>: the
  \<open>map\<close> method of the pool is an argument of the model.  Standard output is a string,
  and \<open>print(s, end='')\<close> appends \<open>s\<close> to it.
\<close>

definition print_end :: "string \<Rightarrow> string \<Rightarrow> string" where
  "print_end s stdout = stdout @ s"

definition run_with_pool ::
    "((int \<Rightarrow> int) \<Rightarrow> int list \<Rightarrow> int list) \<Rightarrow> int \<Rightarrow> string \<Rightarrow> string" where
  "run_with_pool pool_map n stdout =
     fold (\<lambda>result. print_end (str result @ ''|'')) (pool_map f (py_range n)) stdout"

section \<open>The cells that call the framework\<close>


datatype val =
    NoneV
  | BoolV bool
  | IntV int
  | FloatV real
  | StrV string
  | Ref nat
  | Def string
  | ListV "val list"
  | DictV "(string \<times> val) list"



























section \<open>The search space of the tuning lesson\<close>

text \<open>
  The \<open>config\<close> dictionary passed to \<open>tune.run("PPO", ...)\<close>.  A hyperparameter is
  either a value or \<open>tune.grid_search(values)\<close>.
\<close>

datatype hyperparameter = Value nat | Grid_search "nat list"

definition grid_search :: "nat list \<Rightarrow> hyperparameter" where
  "grid_search values = Grid_search values"

record model_config =
  fcnet_hiddens :: "hyperparameter list"

record ppo_config =
  env :: string
  num_gpus :: nat
  num_workers :: nat
  model :: model_config
  eager :: bool

definition tune_config :: ppo_config where
  "tune_config =
     \<lparr> env = ''CartPole-v1'',
       num_gpus = 0,
       num_workers = 3,
       model = \<lparr> fcnet_hiddens = [grid_search [20, 40], grid_search [20, 40]] \<rparr>,
       eager = False \<rparr>"

text \<open>
  Modelled from the spec: the expansion of \<open>grid_search\<close> entries into trials happens
  inside Tune, which is not part of the notebooks.  As the lesson describes it, there is one
  trial for each combination of the values of the two hidden layers: the cross product of
  the value lists, a plain value counting as a list of one.
\<close>

fun candidates :: "hyperparameter \<Rightarrow> nat list" where
  "candidates (Value v) = [v]"
| "candidates (Grid_search vs) = vs"

definition combinations :: "hyperparameter list \<Rightarrow> nat list list" where
  "combinations ps = product_lists (map candidates ps)"

section \<open>Properties of the bandit environment\<close>

lemmas bandit_defs =
  step_def reset_def init_def random_choice_def dict_getitem_def list_getitem_def

lemma step_frame: "fst (step self a) = self"
  by (simp add: step_def)

lemma reset_frame:
  "rewards_for_context (fst (reset self r)) = rewards_for_context self \<and>
   action_space (fst (reset self r)) = action_space self \<and>
   observation_space (fst (reset self r)) = observation_space self"
  by (simp add: reset_def Let_def)

lemma call_env_frame:
  "rewards_for_context (call_env c self) = rewards_for_context self \<and>
   action_space (call_env c self) = action_space self \<and>
   observation_space (call_env c self) = observation_space self"
  by (cases c) (simp_all add: reset_frame step_frame)

lemma run_calls_frame:
  "rewards_for_context (run_calls self cs) = rewards_for_context self \<and>
   action_space (run_calls self cs) = action_space self \<and>
   observation_space (run_calls self cs) = observation_space self"
  unfolding run_calls_def
  by (induction cs arbitrary: self) (simp_all add: call_env_frame)

lemma run_steps_frame: "run_calls self (map Step as) = self"
  unfolding run_calls_def
  by (induction as) (simp_all add: step_frame)

lemma random_choice_context: "random_choice [-1, 1::real] r \<in> {-1, 1}"
proof -
  have "r mod Suc (Suc 0) < Suc (Suc 0)" by simp
  then consider "r mod Suc (Suc 0) = 0" | "r mod Suc (Suc 0) = Suc 0" by linarith
  then show ?thesis
  proof cases
    case 1
    then show ?thesis unfolding random_choice_def by simp
  next
    case 2
    then show ?thesis unfolding random_choice_def by simp
  qed
qed

lemma reset_context:
  "\<exists>c \<in> {-1, 1}. fst (reset self r) = self\<lparr>current_context := Some c\<rparr>
       \<and> snd (reset self r) = [- c, c]"
proof -
  have "fst (reset self r) = self\<lparr>current_context := Some (random_choice [-1, 1] r)\<rparr>
      \<and> snd (reset self r) = [- random_choice [-1, 1] r, random_choice [-1, 1] r]"
    by (simp add: reset_def Let_def)
  with random_choice_context [of r] show ?thesis by (rule bexI [rotated])
qed

text \<open>
  C1.  On an environment that holds the reward table of the constructor and whose current
  context is \<open>c\<close>, one of \<open>-1.0\<close> and \<open>1.0\<close>, \<open>step(a)\<close> for an action \<open>a\<close> among
  0, 1, 2 returns the observation \<open>[-c, c]\<close>, the entry \<open>a\<close> of the table row of \<open>c\<close> as
  reward, \<open>True\<close> as done flag and the dict \<open>{"regret": 10 - reward}\<close>.
\<close>

theorem step_returns_tuple:
  assumes "rewards_for_context self = rewards_for_context (init cfg)"
    and "current_context self = Some c"
    and "c \<in> {-1, 1}"
    and "a \<in> {0, 1, 2}"
  shows "snd (step self a) =
           Inr ([- c, c],
                (if c = -1 then [-10, 0, 10] else [10, 0, -10]) ! nat a,
                True,
                [''regret'' \<mapsto> 10 - (if c = -1 then [-10, 0, 10] else [10, 0, -10]) ! nat a])"
  using assms by (auto simp: bandit_defs)

theorem step_returns_tuple_witness:
  "snd (step ((init ())\<lparr>current_context := Some 1\<rparr>) 2) =
     Inr ([- 1, 1], - 10, True, [''regret'' \<mapsto> 20])"
  using step_returns_tuple [of "(init ())\<lparr>current_context := Some 1\<rparr>" "()" 1 2]
  by (simp add: init_def)

text \<open>
  C2.  The constructor stores the table \<open>{-1.0: [-10, 0, 10], 1.0: [10, 0, -10]}\<close>, and
  after any sequence of \<open>reset\<close> and \<open>step\<close> calls the environment holds the same table,
  the same action space and the same observation space.
\<close>

theorem reward_table_fixed:
  "rewards_for_context (init cfg) = [-1 \<mapsto> [-10, 0, 10], 1 \<mapsto> [10, 0, -10]]
   \<and> rewards_for_context (run_calls (init cfg) cs) =
        [-1 \<mapsto> [-10, 0, 10], 1 \<mapsto> [10, 0, -10]]
   \<and> action_space (run_calls (init cfg) cs) = Discrete 3
   \<and> observation_space (run_calls (init cfg) cs) = Box (-1) 1 [2] float64"
  by (simp add: run_calls_frame) (simp add: init_def)

text \<open>
  C6.  \<open>reset\<close> sets the current context to one of \<open>-1.0\<close> and \<open>1.0\<close> and returns the
  observation \<open>[-c, c]\<close>.  Every \<open>step\<close> that follows returns the environment as it
  received it, so the context is still \<open>c\<close> after any number of steps; a step with an action
  among 0, 1, 2 returns, and every step that returns gives the observation that \<open>reset\<close>
  gave.  On any environment, \<open>step\<close> leaves \<open>current_context\<close> as it was.  The choice
  of \<open>reset\<close> is a real one: each of \<open>-1.0\<close> and \<open>1.0\<close> is the context it installs for
  some draw of the generator.
\<close>

theorem episode_context_fixed:
  assumes "rewards_for_context self = rewards_for_context (init cfg)"
    and "reset self r = (self', obs)"
  shows "(\<exists>c \<in> {-1, 1}. current_context self' = Some c \<and> obs = [- c, c])
       \<and> (\<forall>a. fst (step self' a) = self')
       \<and> (\<forall>as. run_calls self' (map Step as) = self')
       \<and> (\<forall>a \<in> {0, 1, 2}. \<exists>reward info. snd (step self' a) = Inr (obs, reward, True, info))
       \<and> (\<forall>a res. snd (step self' a) = Inr res \<longrightarrow> fst res = obs)
       \<and> (\<forall>e a. current_context (fst (step e a)) = current_context e)
       \<and> (\<forall>c \<in> {-1, 1}. \<exists>r'. reset self r' = (self\<lparr>current_context := Some c\<rparr>, [- c, c]))"
proof -
  have fs: "fst (reset self r) = self'" "snd (reset self r) = obs"
    using assms(2) by simp_all
  from reset_context [of self r]
  obtain c where c: "c \<in> {-1, 1}" "self' = self\<lparr>current_context := Some c\<rparr>" "obs = [- c, c]"
    unfolding fs by (elim bexE conjE)
  have tab: "rewards_for_context self' = rewards_for_context (init cfg)"
    using c(2) assms(1) by simp
  have ctx: "current_context self' = Some c" using c(2) by simp
  have 1: "\<exists>c \<in> {-1, 1}. current_context self' = Some c \<and> obs = [- c, c]"
    using c ctx by blast
  have 2: "\<forall>a. fst (step self' a) = self'" by (simp add: step_frame)
  have 3: "\<forall>as. run_calls self' (map Step as) = self'" by (simp add: run_steps_frame)
  have 4: "\<forall>a \<in> {0, 1, 2}. \<exists>reward info. snd (step self' a) = Inr (obs, reward, True, info)"
    using tab ctx c(1) c(3) by (auto simp: bandit_defs)
  have 5: "\<forall>a res. snd (step self' a) = Inr res \<longrightarrow> fst res = obs"
    using ctx c(3) by (auto simp: step_def split: sum.splits)
  have 6: "\<forall>e a. current_context (fst (step e a)) = current_context e"
    by (simp add: step_frame)
  have "reset self 0 = (self\<lparr>current_context := Some (-1)\<rparr>, [- (-1), -1])"
    by (simp add: reset_def random_choice_def Let_def)
  moreover have "reset self 1 = (self\<lparr>current_context := Some 1\<rparr>, [- 1, 1])"
    by (simp add: reset_def random_choice_def Let_def)
  ultimately have 7: "\<forall>c \<in> {-1, 1}. \<exists>r'. reset self r' = (self\<lparr>current_context := Some c\<rparr>, [- c, c])"
    by blast
  from 1 2 3 4 5 6 7 show ?thesis by blast
qed

theorem episode_context_fixed_witness:
  "(\<exists>c \<in> {-1, 1}. current_context (fst (reset (init ()) 1)) = Some c
        \<and> snd (reset (init ()) 1) = [- c, c])
   \<and> run_calls (fst (reset (init ()) 1)) [Step 0, Step 2, Step 1] = fst (reset (init ()) 1)
   \<and> snd (step (fst (reset (init ()) 1)) 2) =
         Inr (snd (reset (init ()) 1), -10, True, [''regret'' \<mapsto> 20])
   \<and> (\<exists>r'. current_context (fst (reset (init ()) r')) = Some (-1)
           \<and> snd (reset (init ()) r') = [1, -1])
   \<and> (\<exists>r'. current_context (fst (reset (init ()) r')) = Some 1
           \<and> snd (reset (init ()) r') = [-1, 1])"
proof -
  have r: "reset (init ()) 1 = (fst (reset (init ()) 1), snd (reset (init ()) 1))" by simp
  have t: "rewards_for_context (init ()) = rewards_for_context (init ())" by simp
  note e = episode_context_fixed [OF t r]
  have a: "\<exists>c \<in> {-1, 1}. current_context (fst (reset (init ()) 1)) = Some c
        \<and> snd (reset (init ()) 1) = [- c, c]" using e [THEN conjunct1] .
  have "\<forall>as. run_calls (fst (reset (init ()) 1)) (map Step as) = fst (reset (init ()) 1)"
    using e [THEN conjunct2, THEN conjunct2, THEN conjunct1] .
  then have b: "run_calls (fst (reset (init ()) 1)) (map Step [0, 2, 1]) = fst (reset (init ()) 1)"
    by (rule spec)
  have c: "snd (step (fst (reset (init ()) 1)) 2) =
        Inr (snd (reset (init ()) 1), -10, True, [''regret'' \<mapsto> 20])"
    by (simp add: bandit_defs)
  have all: "\<forall>c \<in> {-1, 1}. \<exists>r'. reset (init ()) r' =
                ((init ())\<lparr>current_context := Some c\<rparr>, [- c, c])"
    using e [THEN conjunct2, THEN conjunct2, THEN conjunct2, THEN conjunct2,
             THEN conjunct2, THEN conjunct2] .
  from all obtain r1 where "reset (init ()) r1 =
                ((init ())\<lparr>current_context := Some (-1)\<rparr>, [- (-1), -1])"
    by (elim ballE [of _ _ "-1"] exE) simp_all
  then have d1: "\<exists>r'. current_context (fst (reset (init ()) r')) = Some (-1)
           \<and> snd (reset (init ()) r') = [1, -1]"
    by (intro exI [of _ r1]) simp
  from all obtain r2 where "reset (init ()) r2 =
                ((init ())\<lparr>current_context := Some 1\<rparr>, [- 1, 1])"
    by (elim ballE [of _ _ 1] exE) simp_all
  then have d2: "\<exists>r'. current_context (fst (reset (init ()) r')) = Some 1
           \<and> snd (reset (init ()) r') = [-1, 1]"
    by (intro exI [of _ r2]) simp
  from a b c d1 d2 show ?thesis by simp
qed

text \<open>
  C7.  With the table of the constructor, the reward of a step never exceeds 10 and is 10
  exactly for the third arm (action 2) under context \<open>-1.0\<close> and for the first arm
  (action 0) under context \<open>1.0\<close>; the second arm (action 1) yields 0 under both contexts.
  The regret is \<open>10 - reward\<close>: it is 0 exactly for that best arm and 10 or 20 for the
  other two, 10 for the second arm.
\<close>

theorem optimal_arms:
  assumes "rewards_for_context self = rewards_for_context (init cfg)"
    and "current_context self = Some c"
    and "c \<in> {-1, 1}"
    and "a \<in> {0, 1, 2}"
  shows "(\<exists>reward. step_reward self a = Some reward \<and> reward \<le> 10
            \<and> (reward = 10 \<longleftrightarrow> a = (if c = -1 then 2 else 0))
            \<and> (a = 1 \<longrightarrow> reward = 0)
            \<and> step_regret self a = Some (10 - reward))
       \<and> (step_regret self a = Some 0 \<longleftrightarrow> a = (if c = -1 then 2 else 0))
       \<and> (a \<noteq> (if c = -1 then 2 else 0) \<longrightarrow> step_regret self a \<in> {Some 10, Some 20})
       \<and> (a = 1 \<longrightarrow> step_regret self a = Some 10)"
  using assms by (auto simp: step_reward_def step_regret_def bandit_defs)

theorem optimal_arms_witness:
  "step_reward ((init ())\<lparr>current_context := Some (-1)\<rparr>) 2 = Some 10
   \<and> step_regret ((init ())\<lparr>current_context := Some (-1)\<rparr>) 2 = Some 0"
  using optimal_arms [of "(init ())\<lparr>current_context := Some (-1)\<rparr>" "()" "-1" 2]
  by (simp add: init_def)

text \<open>
  C8.  The reward is linear in the context: with the coefficients 10, 0, -10 for the arms
  0, 1, 2, the table entry of context \<open>c\<close> and arm \<open>a\<close> is the coefficient of \<open>a\<close> times
  \<open>c\<close>, and the entry of an arm under context \<open>-c\<close> is the negation of its entry under
  \<open>c\<close>.
\<close>

theorem reward_linear_in_context:
  assumes "c \<in> {-1, 1}" and "a \<in> {0, 1, 2}"
  shows "\<exists>row row'. rewards_for_context (init cfg) c = Some row
           \<and> rewards_for_context (init cfg) (- c) = Some row'
           \<and> list_getitem row a = Inr (row ! nat a)
           \<and> real_of_int (row ! nat a) = [10, 0, -10] ! nat a * c
           \<and> row' ! nat a = - (row ! nat a)"
  using assms by (auto simp: init_def list_getitem_def)

theorem reward_linear_in_context_witness:
  "\<exists>row row'. rewards_for_context (init ()) 1 = Some row
           \<and> rewards_for_context (init ()) (- 1) = Some row'
           \<and> list_getitem row 2 = Inr (row ! nat 2)
           \<and> real_of_int (row ! nat 2) = [10, 0, -10] ! nat 2 * 1
           \<and> row' ! nat 2 = - (row ! nat 2)"
  using reward_linear_in_context [of 1 2 "()"] by simp

section \<open>Properties of the image-shifting helper\<close>

lemma upt_3: "[0..<3] = [0, 1, 2]"
  by (simp add: numeral_3_eq_3)

lemma convolve_3x3:
  "convolve img [[w00, w01, w02], [w10, w11, w12], [w20, w21, w22]] =
     map (\<lambda>i. map (\<lambda>j.
        w00 * pixel img (int i + 1) (int j + 1) + w01 * pixel img (int i + 1) (int j)
          + w02 * pixel img (int i + 1) (int j - 1)
        + (w10 * pixel img (int i) (int j + 1) + w11 * pixel img (int i) (int j)
          + w12 * pixel img (int i) (int j - 1))
        + (w20 * pixel img (int i - 1) (int j + 1) + w21 * pixel img (int i - 1) (int j)
          + w22 * pixel img (int i - 1) (int j - 1)))
        [0..<length (img ! i)]) [0..<length img]"
  by (simp add: convolve_def upt_3 add.assoc)

lemma convolve_up:
  "convolve img (direction_vectors ! 0) =
     map (\<lambda>i. map (\<lambda>j. pixel img (int i + 1) (int j)) [0..<length (img ! i)]) [0..<length img]"
  by (simp add: direction_vectors_def convolve_3x3)

lemma convolve_left:
  "convolve img (direction_vectors ! 1) =
     map (\<lambda>i. map (\<lambda>j. pixel img (int i) (int j + 1)) [0..<length (img ! i)]) [0..<length img]"
  by (simp add: direction_vectors_def convolve_3x3)

lemma convolve_right:
  "convolve img (direction_vectors ! 2) =
     map (\<lambda>i. map (\<lambda>j. pixel img (int i) (int j - 1)) [0..<length (img ! i)]) [0..<length img]"
  by (simp add: direction_vectors_def convolve_3x3)

lemma convolve_down:
  "convolve img (direction_vectors ! 3) =
     map (\<lambda>i. map (\<lambda>j. pixel img (int i - 1) (int j)) [0..<length (img ! i)]) [0..<length img]"
  by (simp add: direction_vectors_def convolve_3x3)

lemma moved_up_convolve:
  assumes "length img = 8" and "\<forall>row \<in> set img. length row = 8"
  shows "convolve img (direction_vectors ! 0) = moved_up img"
proof -
  have len: "\<And>i. i < 8 \<Longrightarrow> length (img ! i) = 8" using assms by simp
  show ?thesis
    unfolding convolve_up moved_up_def
  proof (rule nth_equalityI)
    show "length (map (\<lambda>i. map (\<lambda>j. pixel img (int i + 1) (int j)) [0..<length (img ! i)]) [0..<length img])
          = length (tl img @ [replicate 8 0])"
      using assms(1) by simp
  next
    fix i assume "i < length (map (\<lambda>i. map (\<lambda>j. pixel img (int i + 1) (int j)) [0..<length (img ! i)]) [0..<length img])"
    then have i: "i < 8" using assms(1) by simp
    show "map (\<lambda>i. map (\<lambda>j. pixel img (int i + 1) (int j)) [0..<length (img ! i)]) [0..<length img] ! i
          = (tl img @ [replicate 8 0]) ! i"
    proof (cases "i < 7")
      case True
      then have r: "(tl img @ [replicate 8 0]) ! i = img ! Suc i"
        using assms(1) by (simp add: nth_append nth_tl)
      have "map (\<lambda>j. pixel img (int i + 1) (int j)) [0..<8] = img ! Suc i"
        using True assms(1) len [of "Suc i"]
        by (intro nth_equalityI) (auto simp: pixel_def nat_add_distrib)
      then show ?thesis using i assms(1) len r by simp
    next
      case False
      then have i7: "i = 7" using i by simp
      have r: "(tl img @ [replicate 8 0]) ! i = replicate 8 0"
        using assms(1) i7 by (simp add: nth_append)
      have "map (\<lambda>j. pixel img (int i + 1) (int j)) [0..<8] = replicate 8 0"
        using i7 assms(1)
        by (intro nth_equalityI) (auto simp: pixel_def)
      then show ?thesis using i assms(1) len r by simp
    qed
  qed
qed


lemma moved_down_convolve:
  assumes "length img = 8" and "\<forall>row \<in> set img. length row = 8"
  shows "convolve img (direction_vectors ! 3) = moved_down img"
proof -
  have len: "\<And>i. i < 8 \<Longrightarrow> length (img ! i) = 8" using assms by simp
  show ?thesis
    unfolding convolve_down moved_down_def
  proof (rule nth_equalityI)
    show "length (map (\<lambda>i. map (\<lambda>j. pixel img (int i - 1) (int j)) [0..<length (img ! i)]) [0..<length img])
          = length (replicate 8 0 # butlast img)"
      using assms(1) by simp
  next
    fix i assume "i < length (map (\<lambda>i. map (\<lambda>j. pixel img (int i - 1) (int j)) [0..<length (img ! i)]) [0..<length img])"
    then have i: "i < 8" using assms(1) by simp
    show "map (\<lambda>i. map (\<lambda>j. pixel img (int i - 1) (int j)) [0..<length (img ! i)]) [0..<length img] ! i
          = (replicate 8 0 # butlast img) ! i"
    proof (cases i)
      case 0
      have "map (\<lambda>j. pixel img (int i - 1) (int j)) [0..<8] = replicate 8 0"
        using 0 by (intro nth_equalityI) (auto simp: pixel_def)
      then show ?thesis using 0 i assms(1) len by simp
    next
      case (Suc k)
      then have k: "k < 7" using i by simp
      have r: "(replicate 8 0 # butlast img) ! i = img ! k"
        using Suc k assms(1) by (simp add: nth_butlast)
      have "map (\<lambda>j. pixel img (int i - 1) (int j)) [0..<8] = img ! k"
        using Suc k assms(1) len [of k]
        by (intro nth_equalityI) (auto simp: pixel_def)
      then show ?thesis using i assms(1) len r by simp
    qed
  qed
qed

lemma moved_left_convolve:
  assumes "length img = 8" and "\<forall>row \<in> set img. length row = 8"
  shows "convolve img (direction_vectors ! 1) = moved_left img"
proof -
  have len: "\<And>i. i < 8 \<Longrightarrow> length (img ! i) = 8" using assms by simp
  have row: "map (\<lambda>j. pixel img (int i) (int j + 1)) [0..<8] = tl (img ! i) @ [0]"
    if i: "i < 8" for i
  proof (rule nth_equalityI)
    show "length (map (\<lambda>j. pixel img (int i) (int j + 1)) [0..<8]) = length (tl (img ! i) @ [0])"
      using len [OF i] by simp
  next
    fix j assume "j < length (map (\<lambda>j. pixel img (int i) (int j + 1)) [0..<8])"
    then have j: "j < 8" by simp
    show "map (\<lambda>j. pixel img (int i) (int j + 1)) [0..<8] ! j = (tl (img ! i) @ [0]) ! j"
    proof (cases "j < 7")
      case True
      then show ?thesis
        using i j assms(1) len [OF i] by (simp add: pixel_def nth_append nth_tl nat_add_distrib)
    next
      case False
      then have "j = 7" using j by simp
      then show ?thesis
        using i assms(1) len [OF i] by (simp add: pixel_def nth_append)
    qed
  qed
  show ?thesis
    unfolding convolve_left moved_left_def
    using assms(1) len row by (intro nth_equalityI) simp_all
qed

lemma moved_right_convolve:
  assumes "length img = 8" and "\<forall>row \<in> set img. length row = 8"
  shows "convolve img (direction_vectors ! 2) = moved_right img"
proof -
  have len: "\<And>i. i < 8 \<Longrightarrow> length (img ! i) = 8" using assms by simp
  have row: "map (\<lambda>j. pixel img (int i) (int j - 1)) [0..<8] = 0 # butlast (img ! i)"
    if i: "i < 8" for i
  proof (rule nth_equalityI)
    show "length (map (\<lambda>j. pixel img (int i) (int j - 1)) [0..<8]) = length (0 # butlast (img ! i))"
      using len [OF i] by simp
  next
    fix j assume "j < length (map (\<lambda>j. pixel img (int i) (int j - 1)) [0..<8])"
    then have j: "j < 8" by simp
    show "map (\<lambda>j. pixel img (int i) (int j - 1)) [0..<8] ! j = (0 # butlast (img ! i)) ! j"
    proof (cases j)
      case 0
      then show ?thesis by (simp add: pixel_def)
    next
      case (Suc k)
      then have "k < 7" using j by simp
      then show ?thesis
        using Suc i j assms(1) len [OF i] by (simp add: pixel_def nth_butlast)
    qed
  qed
  show ?thesis
    unfolding convolve_right moved_right_def
    using assms(1) len row by (intro nth_equalityI) simp_all
qed

lemma concat_chunks: "concat (map (\<lambda>i. take k (drop (k * i) x)) [0..<n]) = take (k * n) x"
proof (induction n)
  case 0
  show ?case by simp
next
  case (Suc n)
  have "take (k * Suc n) x = take (k * n + k) x" by (simp add: add.commute)
  also have "\<dots> = take (k * n) x @ take k (drop (k * n) x)" by (rule take_add)
  finally show ?case using Suc by simp
qed

lemma reshape_8_8_image:
  assumes "length x = 64"
  shows "\<exists>img. reshape_8_8 x = Inr img \<and> length img = 8
           \<and> (\<forall>row \<in> set img. length row = 8) \<and> ravel img = x"
proof -
  let ?img = "map (\<lambda>i. take 8 (drop (8 * i) x)) [0..<8]"
  have 1: "reshape_8_8 x = Inr ?img" using assms by (simp add: reshape_8_8_def)
  have 2: "length ?img = 8" by simp
  have 3: "\<forall>row \<in> set ?img. length row = 8" using assms by auto
  have "ravel ?img = take (8 * 8) x" unfolding ravel_def by (rule concat_chunks)
  then have 4: "ravel ?img = x" using assms by simp
  from 1 2 3 4 show ?thesis by blast
qed


lemma shift_kernels:
  assumes "length x = 64"
  shows "\<exists>img. reshape_8_8 x = Inr img \<and> ravel img = x
           \<and> shift x (direction_vectors ! 0) = Inr (ravel (moved_up img))
           \<and> shift x (direction_vectors ! 1) = Inr (ravel (moved_left img))
           \<and> shift x (direction_vectors ! 2) = Inr (ravel (moved_right img))
           \<and> shift x (direction_vectors ! 3) = Inr (ravel (moved_down img))"
proof -
  from reshape_8_8_image [OF assms]
  obtain img where img: "reshape_8_8 x = Inr img" "length img = 8"
      "\<forall>row \<in> set img. length row = 8" "ravel img = x"
    by blast
  have "shift x (direction_vectors ! 0) = Inr (ravel (moved_up img))"
    and "shift x (direction_vectors ! 1) = Inr (ravel (moved_left img))"
    and "shift x (direction_vectors ! 2) = Inr (ravel (moved_right img))"
    and "shift x (direction_vectors ! 3) = Inr (ravel (moved_down img))"
    using img(1) moved_up_convolve [OF img(2,3)] moved_left_convolve [OF img(2,3)]
      moved_right_convolve [OF img(2,3)] moved_down_convolve [OF img(2,3)]
    by (simp_all add: shift_def)
  with img(1,4) show ?thesis by blast
qed

lemma collect_map_Inr: "collect (map Inr vs) = Inr vs"
  by (induction vs) simp_all

lemma collect_Inr_length: "collect rs = Inr vs \<Longrightarrow> length vs = length rs"
proof (induction rs arbitrary: vs)
  case Nil
  then show ?case by simp
next
  case (Cons r rs)
  then show ?case by (cases r) (auto split: sum.splits)
qed

lemma map_reshape_images:
  assumes "\<forall>x \<in> set X. length x = 64"
  shows "\<exists>imgs. map reshape_8_8 X = map Inr imgs \<and> map ravel imgs = X
            \<and> map (\<lambda>x. shift x (direction_vectors ! 0)) X = map (\<lambda>img. Inr (ravel (moved_up img))) imgs
            \<and> map (\<lambda>x. shift x (direction_vectors ! 1)) X = map (\<lambda>img. Inr (ravel (moved_left img))) imgs
            \<and> map (\<lambda>x. shift x (direction_vectors ! 2)) X = map (\<lambda>img. Inr (ravel (moved_right img))) imgs
            \<and> map (\<lambda>x. shift x (direction_vectors ! 3)) X = map (\<lambda>img. Inr (ravel (moved_down img))) imgs"
  using assms
proof (induction X)
  case Nil
  show ?case by simp
next
  case (Cons x X)
  then have "length x = 64" by simp
  from shift_kernels [OF this] obtain img where img: "reshape_8_8 x = Inr img" "ravel img = x"
     "shift x (direction_vectors ! 0) = Inr (ravel (moved_up img))"
     "shift x (direction_vectors ! 1) = Inr (ravel (moved_left img))"
     "shift x (direction_vectors ! 2) = Inr (ravel (moved_right img))"
     "shift x (direction_vectors ! 3) = Inr (ravel (moved_down img))"
    by blast
  from Cons obtain imgs where imgs: "map reshape_8_8 X = map Inr imgs" "map ravel imgs = X"
     "map (\<lambda>x. shift x (direction_vectors ! 0)) X = map (\<lambda>img. Inr (ravel (moved_up img))) imgs"
     "map (\<lambda>x. shift x (direction_vectors ! 1)) X = map (\<lambda>img. Inr (ravel (moved_left img))) imgs"
     "map (\<lambda>x. shift x (direction_vectors ! 2)) X = map (\<lambda>img. Inr (ravel (moved_right img))) imgs"
     "map (\<lambda>x. shift x (direction_vectors ! 3)) X = map (\<lambda>img. Inr (ravel (moved_down img))) imgs"
    by auto
  show ?case
    by (rule exI [of _ "img # imgs"]) (simp add: img imgs del: One_nat_def)
qed

lemma collect_map_Inr_comp: "collect (map (\<lambda>v. Inr (g v)) vs) = Inr (map g vs)"
  by (induction vs) simp_all

lemma direction_vectors_nth:
  "direction_vectors =
     [direction_vectors ! 0, direction_vectors ! 1, direction_vectors ! 2, direction_vectors ! 3]"
  by (simp add: direction_vectors_def)

lemma nudge_dataset_blocks:
  assumes "X \<noteq> []" and "\<forall>x \<in> set X. length x = 64"
  shows "\<exists>imgs. map reshape_8_8 X = map Inr imgs \<and> map ravel imgs = X
           \<and> map (\<lambda>x. shift x (direction_vectors ! 0)) X = map (\<lambda>img. Inr (ravel (moved_up img))) imgs
           \<and> map (\<lambda>x. shift x (direction_vectors ! 1)) X = map (\<lambda>img. Inr (ravel (moved_left img))) imgs
           \<and> map (\<lambda>x. shift x (direction_vectors ! 2)) X = map (\<lambda>img. Inr (ravel (moved_right img))) imgs
           \<and> map (\<lambda>x. shift x (direction_vectors ! 3)) X = map (\<lambda>img. Inr (ravel (moved_down img))) imgs
           \<and> nudge_dataset X Y =
               Inr (X @ map (\<lambda>img. ravel (moved_up img)) imgs
                      @ map (\<lambda>img. ravel (moved_left img)) imgs
                      @ map (\<lambda>img. ravel (moved_right img)) imgs
                      @ map (\<lambda>img. ravel (moved_down img)) imgs,
                    Y @ Y @ Y @ Y @ Y)"
proof -
  from map_reshape_images [OF assms(2)]
  obtain imgs where imgs: "map reshape_8_8 X = map Inr imgs" "map ravel imgs = X"
     "map (\<lambda>x. shift x (direction_vectors ! 0)) X = map (\<lambda>img. Inr (ravel (moved_up img))) imgs"
     "map (\<lambda>x. shift x (direction_vectors ! 1)) X = map (\<lambda>img. Inr (ravel (moved_left img))) imgs"
     "map (\<lambda>x. shift x (direction_vectors ! 2)) X = map (\<lambda>img. Inr (ravel (moved_right img))) imgs"
     "map (\<lambda>x. shift x (direction_vectors ! 3)) X = map (\<lambda>img. Inr (ravel (moved_down img))) imgs"
    by blast
  have a: "apply_along_axis (\<lambda>x. shift x (direction_vectors ! 0)) X
             = Inr (map (\<lambda>img. ravel (moved_up img)) imgs)"
    and b: "apply_along_axis (\<lambda>x. shift x (direction_vectors ! 1)) X
             = Inr (map (\<lambda>img. ravel (moved_left img)) imgs)"
    and c: "apply_along_axis (\<lambda>x. shift x (direction_vectors ! 2)) X
             = Inr (map (\<lambda>img. ravel (moved_right img)) imgs)"
    and d: "apply_along_axis (\<lambda>x. shift x (direction_vectors ! 3)) X
             = Inr (map (\<lambda>img. ravel (moved_down img)) imgs)"
    using assms(1) by (simp_all add: apply_along_axis_def imgs collect_map_Inr_comp del: One_nat_def)
  have five: "[0..<5] = [0, 1, 2, 3, 4]" by (simp add: upt_rec)
  have "nudge_dataset X Y =
               Inr (X @ map (\<lambda>img. ravel (moved_up img)) imgs
                      @ map (\<lambda>img. ravel (moved_left img)) imgs
                      @ map (\<lambda>img. ravel (moved_right img)) imgs
                      @ map (\<lambda>img. ravel (moved_down img)) imgs,
                    Y @ Y @ Y @ Y @ Y)"
    unfolding nudge_dataset_def
    by (subst direction_vectors_nth) (simp add: a b c d np_concatenate_def five del: One_nat_def)
  with imgs show ?thesis by blast
qed


lemma nudge_dataset_error_free:
  assumes "X \<noteq> []" and "\<forall>x \<in> set X. length x = 64"
  shows "\<exists>B. length B = 4 * length X \<and> (\<forall>x \<in> set B. length x = 64)
           \<and> nudge_dataset X Y = Inr (X @ B, Y @ Y @ Y @ Y @ Y)"
proof -
  from nudge_dataset_blocks [OF assms, of Y]
  obtain imgs where imgs: "map reshape_8_8 X = map Inr imgs" "map ravel imgs = X"
    "nudge_dataset X Y =
               Inr (X @ map (\<lambda>img. ravel (moved_up img)) imgs
                      @ map (\<lambda>img. ravel (moved_left img)) imgs
                      @ map (\<lambda>img. ravel (moved_right img)) imgs
                      @ map (\<lambda>img. ravel (moved_down img)) imgs,
                    Y @ Y @ Y @ Y @ Y)"
    by blast
  let ?B = "map (\<lambda>img. ravel (moved_up img)) imgs
                      @ map (\<lambda>img. ravel (moved_left img)) imgs
                      @ map (\<lambda>img. ravel (moved_right img)) imgs
                      @ map (\<lambda>img. ravel (moved_down img)) imgs"
  have len: "length imgs = length X" using imgs(2) by (metis length_map)
  have shape: "length img = 8 \<and> (\<forall>row \<in> set img. length row = 8)" if "img \<in> set imgs" for img
  proof -
    from that obtain k where k: "k < length imgs" "imgs ! k = img" by (auto simp: in_set_conv_nth)
    then have "reshape_8_8 (X ! k) = Inr img"
      using imgs(1) len by (metis length_map nth_map)
    then show ?thesis
      by (auto simp: reshape_8_8_def split: if_splits)
  qed
  have r64: "length (ravel a) = 64" if "length a = 8" "\<forall>row \<in> set a. length row = 8" for a :: image
  proof -
    have "map length a = replicate 8 8"
      using that by (intro nth_equalityI) simp_all
    then show ?thesis by (simp add: ravel_def length_concat sum_list_replicate)
  qed
  have up: "length (ravel (moved_up img)) = 64" if "img \<in> set imgs" for img
    using shape [OF that] by (intro r64) (auto simp: moved_up_def dest: list.set_sel(2) [rotated])
  have down: "length (ravel (moved_down img)) = 64" if "img \<in> set imgs" for img
    using shape [OF that] by (intro r64) (auto simp: moved_down_def dest: in_set_butlastD)
  have left: "length (ravel (moved_left img)) = 64" if "img \<in> set imgs" for img
    using shape [OF that] by (intro r64) (auto simp: moved_left_def)
  have right: "length (ravel (moved_right img)) = 64" if "img \<in> set imgs" for img
    using shape [OF that] by (intro r64) (auto simp: moved_right_def)
  have 1: "length ?B = 4 * length X" using len by simp
  have 2: "\<forall>x \<in> set ?B. length x = 64" using up down left right by auto
  from 1 2 imgs(3) show ?thesis by blast
qed

text \<open>
  On an array with no row \<open>np.apply_along_axis\<close> raises \<open>ValueError\<close>, whatever the
  labels are, and \<open>nudge_dataset\<close> with it.
\<close>

lemma nudge_dataset_no_rows: "nudge_dataset [] Y = Inl ValueError"
  by (simp add: nudge_dataset_def apply_along_axis_def direction_vectors_def)

text \<open>
  C3, for an array with at least one row.  Let the array \<open>X\<close> have \<open>n \<ge> 1\<close> rows, every
  row holding 64 values.
  Then \<open>nudge_dataset(X, Y)\<close> returns two newly allocated arrays: an array of
  \<open>5 * n\<close> rows of 64 values whose first \<open>n\<close> rows are those of \<open>X\<close>, and the labels
  \<open>Y\<close> five times in a row.  Every array allocated before the call, \<open>X\<close> and \<open>Y\<close> among
  them, holds after the call what it held before.
\<close>

theorem nudge_dataset_five_times:
  assumes "images s X \<noteq> []"
    and "\<forall>x \<in> set (images s X). length x = 64"
    and "X < next_image s"
    and "Y < next_labels s"
  shows "\<exists>s' X' Y'. nudge_dataset_call s X Y = (s', Inr (X', Y'))
           \<and> length (images s' X') = 5 * length (images s X)
           \<and> take (length (images s X)) (images s' X') = images s X
           \<and> (\<forall>x \<in> set (images s' X'). length x = 64)
           \<and> labels s' Y' = labels s Y @ labels s Y @ labels s Y @ labels s Y @ labels s Y
           \<and> length (labels s' Y') = 5 * length (labels s Y)
           \<and> (\<forall>r < next_image s. images s' r = images s r)
           \<and> (\<forall>r < next_labels s. labels s' r = labels s r)"
proof -
  from nudge_dataset_error_free [OF assms(1,2), of "labels s Y"]
  obtain B where B: "length B = 4 * length (images s X)" "\<forall>x \<in> set B. length x = 64"
    "nudge_dataset (images s X) (labels s Y) =
       Inr (images s X @ B,
            labels s Y @ labels s Y @ labels s Y @ labels s Y @ labels s Y)"
    by blast
  let ?s' = "s\<lparr> images := (images s)(next_image s := images s X @ B),
              next_image := Suc (next_image s),
              labels := (labels s)(next_labels s :=
                 labels s Y @ labels s Y @ labels s Y @ labels s Y @ labels s Y),
              next_labels := Suc (next_labels s) \<rparr>"
  have call: "nudge_dataset_call s X Y = (?s', Inr (next_image s, next_labels s))"
    by (simp add: nudge_dataset_call_def B(3))
  have 1: "length (images ?s' (next_image s)) = 5 * length (images s X)" using B(1) by simp
  have 2: "take (length (images s X)) (images ?s' (next_image s)) = images s X" by simp
  have 3: "\<forall>x \<in> set (images ?s' (next_image s)). length x = 64" using B(2) assms(2) by auto
  have 4: "labels ?s' (next_labels s) =
             labels s Y @ labels s Y @ labels s Y @ labels s Y @ labels s Y" by simp
  have 5: "length (labels ?s' (next_labels s)) = 5 * length (labels s Y)" by simp
  have 6: "\<forall>r < next_image s. images ?s' r = images s r" by simp
  have 7: "\<forall>r < next_labels s. labels ?s' r = labels s r" by simp
  from call 1 2 3 4 5 6 7 show ?thesis by blast
qed

theorem nudge_dataset_five_times_witness:
  "\<exists>s' X' Y'.
      nudge_dataset_call
        \<lparr> images = (\<lambda>_. [])(0 := [replicate 64 0]), next_image = 1,
          labels = (\<lambda>_. [])(0 := [7]), next_labels = 1 \<rparr> 0 0 = (s', Inr (X', Y'))
      \<and> length (images s' X') = 5
      \<and> take 1 (images s' X') = [replicate 64 0]
      \<and> labels s' Y' = [7, 7, 7, 7, 7]
      \<and> images s' 0 = [replicate 64 0]
      \<and> labels s' 0 = [7]"
proof -
  let ?s = "\<lparr> images = (\<lambda>_. [])(0 := [replicate 64 (0::real)]), next_image = 1,
          labels = (\<lambda>_. [])(0 := [7::int]), next_labels = 1 \<rparr>"
  have h1: "images ?s 0 \<noteq> []" by simp
  have h2: "\<forall>x \<in> set (images ?s 0). length x = 64" by simp
  have h3: "0 < next_image ?s" by simp
  have h4: "0 < next_labels ?s" by simp
  from nudge_dataset_five_times [OF h1 h2 h3 h4]
  obtain s' X' Y' where r: "nudge_dataset_call ?s 0 0 = (s', Inr (X', Y'))"
      "length (images s' X') = 5 * length (images ?s 0)"
      "take (length (images ?s 0)) (images s' X') = images ?s 0"
      "labels s' Y' = labels ?s 0 @ labels ?s 0 @ labels ?s 0 @ labels ?s 0 @ labels ?s 0"
      "\<forall>r < next_image ?s. images s' r = images ?s r"
      "\<forall>r < next_labels ?s. labels s' r = labels ?s r"
    by blast
  have a: "length (images s' X') = 5" using r(2) by simp
  have b: "take 1 (images s' X') = [replicate 64 0]" using r(3) by simp
  have c: "labels s' Y' = [7, 7, 7, 7, 7]" using r(4) by simp
  have d: "images s' 0 = [replicate 64 0]" using r(5) by simp
  have e: "labels s' 0 = [7]" using r(6) by simp
  from r(1) a b c d e show ?thesis by blast
qed

text \<open>
  On an array with no row, \<open>np.apply_along_axis\<close> raises \<open>ValueError\<close>, and so does
  \<open>nudge_dataset\<close>: it returns no pair of arrays.
\<close>

theorem nudge_dataset_empty_counterexample:
  "nudge_dataset [] ([] :: int list) = Inl ValueError"
  by (simp add: nudge_dataset_def apply_along_axis_def direction_vectors_def)

text \<open>
  C4, with the blocks in the order of the kernels.  Let \<open>X\<close> have at least one row, every
  row holding the 64 values of an 8x8 image.  Applied to a row, \<open>shift\<close> with the first,
  second, third and fourth kernel of \<open>direction_vectors\<close> yields the image moved by one
  pixel up, left, right and down, with zeros in the row or column that enters.  The four
  blocks that \<open>nudge_dataset\<close> appends to \<open>X\<close> are, in this order, the images moved up,
  left, right and down.
\<close>

theorem nudge_dataset_shifts:
  assumes "X \<noteq> []" and "\<forall>x \<in> set X. length x = 64"
  shows "\<exists>imgs. map reshape_8_8 X = map Inr imgs \<and> map ravel imgs = X
           \<and> map (\<lambda>x. shift x (direction_vectors ! 0)) X = map (\<lambda>img. Inr (ravel (moved_up img))) imgs
           \<and> map (\<lambda>x. shift x (direction_vectors ! 1)) X = map (\<lambda>img. Inr (ravel (moved_left img))) imgs
           \<and> map (\<lambda>x. shift x (direction_vectors ! 2)) X = map (\<lambda>img. Inr (ravel (moved_right img))) imgs
           \<and> map (\<lambda>x. shift x (direction_vectors ! 3)) X = map (\<lambda>img. Inr (ravel (moved_down img))) imgs
           \<and> nudge_dataset X Y =
               Inr (X @ map (\<lambda>img. ravel (moved_up img)) imgs
                      @ map (\<lambda>img. ravel (moved_left img)) imgs
                      @ map (\<lambda>img. ravel (moved_right img)) imgs
                      @ map (\<lambda>img. ravel (moved_down img)) imgs,
                    Y @ Y @ Y @ Y @ Y)"
  using assms by (rule nudge_dataset_blocks)

text \<open>
  At the image whose only non-zero pixel is the 1 at row 1 and column 1 (index 9 of its 64
  values), the four appended rows have the 1 at index 1 (up), 8 (left), 10 (right) and 17
  (down).
\<close>

theorem nudge_dataset_shifts_witness:
  "nudge_dataset [(replicate 64 0)[9 := 1]] [7 :: int] =
       Inr ([(replicate 64 0)[9 := 1],
             (replicate 64 0)[1 := 1],
             (replicate 64 0)[8 := 1],
             (replicate 64 0)[10 := 1],
             (replicate 64 0)[17 := 1]],
            [7, 7, 7, 7, 7])"
proof -
  let ?e9 = "(replicate 64 (0::real))[9 := 1]"
  let ?i9 = "(replicate 8 (replicate 8 (0::real)))[1 := (replicate 8 0)[1 := 1]]"
  have h1: "[?e9] \<noteq> []" by simp
  have h2: "\<forall>x \<in> set [?e9]. length x = 64" by simp
  from nudge_dataset_shifts [OF h1 h2, of "[7 :: int]"]
  obtain imgs where imgs: "map reshape_8_8 [?e9] = map Inr imgs"
    and res: "nudge_dataset [?e9] [7 :: int] =
            Inr ([?e9] @ map (\<lambda>img. ravel (moved_up img)) imgs
                      @ map (\<lambda>img. ravel (moved_left img)) imgs
                      @ map (\<lambda>img. ravel (moved_right img)) imgs
                      @ map (\<lambda>img. ravel (moved_down img)) imgs,
                 [7] @ [7] @ [7] @ [7] @ [7])"
    by blast
  have "reshape_8_8 ?e9 = Inr ?i9" by code_simp
  with imgs have i: "imgs = [?i9]" by (cases imgs) auto
  have u: "ravel (moved_up ?i9) = (replicate 64 0)[1 := 1]" by code_simp
  have l: "ravel (moved_left ?i9) = (replicate 64 0)[8 := 1]" by code_simp
  have r: "ravel (moved_right ?i9) = (replicate 64 0)[10 := 1]" by code_simp
  have d: "ravel (moved_down ?i9) = (replicate 64 0)[17 := 1]" by code_simp
  show ?thesis unfolding res i by (simp only: list.map append.simps u l r d)
qed

text \<open>
  The image with a single 1, at row 1 and column 1 (index 9 of its 64 values).  Moved to the
  left, the 1 is at row 1 and column 0 (index 8).  The first block that \<open>nudge_dataset\<close>
  appends has it at row 0 and column 1 (index 1): the image moved up, which is not the image
  moved to the left.
\<close>

theorem nudge_dataset_order_counterexample:
  "reshape_8_8 ((replicate 64 0)[9 := 1 :: real]) =
       Inr ((replicate 8 (replicate 8 0))[1 := (replicate 8 0)[1 := 1]])
   \<and> ravel (moved_left ((replicate 8 (replicate 8 0))[1 := (replicate 8 0)[1 := 1]]))
       = (replicate 64 0)[8 := 1]
   \<and> nudge_dataset [(replicate 64 0)[9 := 1]] [3 :: int] =
       Inr ([(replicate 64 0)[9 := 1],
             (replicate 64 0)[1 := 1],
             (replicate 64 0)[8 := 1],
             (replicate 64 0)[10 := 1],
             (replicate 64 0)[17 := 1]],
            [3, 3, 3, 3, 3])
   \<and> (replicate 64 0)[1 := 1 :: real] \<noteq> (replicate 64 0)[8 := 1]"
  by code_simp

section \<open>Properties of the notebook cells\<close>

lemma fold_print_end:
  "fold (\<lambda>result. print_end (str result @ ''|'')) xs out
     = out @ concat (map (\<lambda>i. str i @ ''|'') xs)"
  by (induction xs arbitrary: out) (simp_all add: print_end_def)

lemma map_f_id: "map f xs = xs"
  by (induction xs) (simp_all add: f_def)

text \<open>
  C9.  When the \<open>map\<close> of the pool applies the function to each input and keeps the order
  of the inputs, \<open>pool.map(f, range(n))\<close> is the list of the integers from 0 to \<open>n - 1\<close> in
  increasing order, and \<open>run_with_pool(n)\<close> appends to standard output the decimal form of
  each of them followed by \<open>|\<close>, in that order (nothing when \<open>n\<close> is not positive).
\<close>

theorem run_with_pool_prints:
  assumes "\<And>g xs. pool_map g xs = map g xs"
  shows "pool_map f (py_range n) = [0..n - 1]
       \<and> run_with_pool pool_map n out = out @ concat (map (\<lambda>i. str i @ ''|'') [0..n - 1])"
  by (simp add: run_with_pool_def assms fold_print_end map_f_id py_range_def)

theorem run_with_pool_prints_witness:
  "run_with_pool map 12 [] = ''0|1|2|3|4|5|6|7|8|9|10|11|''"
proof -
  have h: "\<And>(g :: int \<Rightarrow> int) xs. map g xs = map g xs" by simp
  have "concat (map (\<lambda>i. str i @ ''|'') [0..12 - 1]) = ''0|1|2|3|4|5|6|7|8|9|10|11|''"
    by code_simp
  with run_with_pool_prints [of map 12 "[]", OF h] show ?thesis by simp
qed
















text \<open>
  C10.  The configuration gives \<open>fcnet_hiddens\<close> as two \<open>grid_search([20, 40])\<close> entries,
  one for each hidden layer; their cross product has exactly the four combinations
  \<open>[20, 20]\<close>, \<open>[20, 40]\<close>, \<open>[40, 20]\<close> and \<open>[40, 40]\<close>, each once.
\<close>

theorem grid_search_combinations:
  "fcnet_hiddens (model tune_config) = [Grid_search [20, 40], Grid_search [20, 40]]
   \<and> combinations (fcnet_hiddens (model tune_config)) = [[20, 20], [20, 40], [40, 20], [40, 40]]
   \<and> length (combinations (fcnet_hiddens (model tune_config))) = 4
   \<and> distinct (combinations (fcnet_hiddens (model tune_config)))"
  by (simp add: tune_config_def grid_search_def combinations_def)

end
